theory Spec2Isabelle
  imports Complex_Main "HOL-Library.Log_Nat" "HOL-Library.Char_ord" "HOL-Library.List_Lexorder"
    "HOL-Library.Product_Lexorder" "HOL-Library.Multiset"
begin

section \<open>Values of the Power column\<close>

text \<open>
  A Python \<open>float\<close> is an IEEE binary64 value. The model keeps the four kinds of value the
  program can tell apart: a finite number, the two infinities and NaN. The sign of zero is
  not modelled (\<open>-0.0\<close> and \<open>0.0\<close> compare equal in every test the program makes).
  Comparisons are those of Python: every ordering test with NaN is false.
\<close>

datatype pyfloat = Fin real | PInf | NInf | NaN

fun pf_lt :: "pyfloat \<Rightarrow> pyfloat \<Rightarrow> bool" where
  "pf_lt NaN _ = False"
| "pf_lt _ NaN = False"
| "pf_lt (Fin a) (Fin b) = (a < b)"
| "pf_lt PInf _ = False"
| "pf_lt _ PInf = True"
| "pf_lt _ NInf = False"
| "pf_lt NInf _ = True"

fun pf_le :: "pyfloat \<Rightarrow> pyfloat \<Rightarrow> bool" where
  "pf_le NaN _ = False"
| "pf_le _ NaN = False"
| "pf_le (Fin a) (Fin b) = (a \<le> b)"
| "pf_le NInf _ = True"
| "pf_le _ PInf = True"
| "pf_le _ NInf = False"
| "pf_le PInf _ = False"

fun pf_abs :: "pyfloat \<Rightarrow> pyfloat" where
  "pf_abs (Fin a) = Fin \<bar>a\<bar>"
| "pf_abs PInf = PInf"
| "pf_abs NInf = PInf"
| "pf_abs NaN = NaN"

definition pf_of_int :: "int \<Rightarrow> pyfloat" where
  "pf_of_int n = Fin (of_int n)"

definition isnan :: "pyfloat \<Rightarrow> bool" where
  "isnan v = (v = NaN)"

section \<open>The builtin \<open>str.strip\<close> and \<open>float\<close>\<close>

text \<open>
  Text is modelled as a list of 8-bit characters, read as the code points below 256.
  \<open>is_space\<close> is \<open>str.isspace\<close> on that range.
\<close>

definition is_space :: "char \<Rightarrow> bool" where
  "is_space c = (let n = (of_char c :: nat)
                 in (9 \<le> n \<and> n \<le> 13) \<or> (28 \<le> n \<and> n \<le> 32) \<or> n = 133 \<or> n = 160)"

definition strip :: "string \<Rightarrow> string" where
  "strip s = rev (dropWhile is_space (rev (dropWhile is_space s)))"

definition is_digit :: "char \<Rightarrow> bool" where
  "is_digit c = (let n = (of_char c :: nat) in 48 \<le> n \<and> n \<le> 57)"

definition lower :: "char \<Rightarrow> char" where
  "lower c = (let n = (of_char c :: nat) in if 65 \<le> n \<and> n \<le> 90 then char_of (n + 32) else c)"

text \<open>
  \<open>float\<close> accepts single underscores between digits; they are removed before the
  number is read. \<open>prev\<close> is the character before the current one.
\<close>

fun strip_underscores :: "char \<Rightarrow> string \<Rightarrow> string option" where
  "strip_underscores prev [] = (if prev = CHR ''_'' then None else Some [])"
| "strip_underscores prev (c # cs) =
     (if c = CHR ''_'' then (if is_digit prev then strip_underscores c cs else None)
      else if prev = CHR ''_'' \<and> \<not> is_digit c then None
      else map_option ((#) c) (strip_underscores c cs))"

definition digits_value :: "string \<Rightarrow> int" where
  "digits_value ds = foldl (\<lambda>n c. 10 * n + (of_char c - 48)) 0 ds"

definition pow10 :: "int \<Rightarrow> rat" where
  "pow10 e = (if 0 \<le> e then 10 ^ nat e else 1 / 10 ^ nat (- e))"

definition pow2 :: "int \<Rightarrow> rat" where
  "pow2 e = (if 0 \<le> e then 2 ^ nat e else 1 / 2 ^ nat (- e))"

definition split_sign :: "string \<Rightarrow> bool \<times> string" where
  "split_sign s = (case s of [] \<Rightarrow> (False, [])
                   | c # t \<Rightarrow> if c = CHR ''-'' then (True, t)
                              else if c = CHR ''+'' then (False, t) else (False, s))"

text \<open>
  An unsigned decimal literal: digits, an optional point and digits (at least one digit in
  all), and an optional exponent \<open>e\<close> or \<open>E\<close> with an optional sign and at least one digit.
  The whole text has to be consumed.
\<close>

definition parse_decimal :: "string \<Rightarrow> rat option" where
  "parse_decimal s =
     (let ip = takeWhile is_digit s;
          r1 = dropWhile is_digit s;
          (fp, r2) = (case r1 of [] \<Rightarrow> ([], [])
                      | c # t \<Rightarrow> if c = CHR ''.''
                                 then (takeWhile is_digit t, dropWhile is_digit t)
                                 else ([], r1));
          mant = (\<lambda>e. of_int (digits_value (ip @ fp)) * pow10 (e - int (length fp)))
      in if ip = [] \<and> fp = [] then None
         else case r2 of [] \<Rightarrow> Some (mant 0)
              | c # t \<Rightarrow>
                  if c = CHR ''e'' \<or> c = CHR ''E''
                  then (let (neg, ds) = split_sign t
                        in if ds \<noteq> [] \<and> list_all is_digit ds
                           then Some (mant (if neg then - digits_value ds
                                            else digits_value ds))
                           else None)
                  else None)"

text \<open>Rounding of an exact value to binary64: to nearest, ties to even; overflow gives an infinity.\<close>

definition round_half_even :: "rat \<Rightarrow> int" where
  "round_half_even q =
     (let f = \<lfloor>q\<rfloor>; d = q - of_int f
      in if d < 1 / 2 then f else if 1 / 2 < d then f + 1
         else if even f then f else f + 1)"

definition ilog2 :: "rat \<Rightarrow> int" where
  "ilog2 a = (let (p, q) = quotient_of a; k = bitlen p - bitlen q
              in if pow2 k \<le> a then k else k - 1)"

definition round_binary64 :: "rat \<Rightarrow> pyfloat" where
  "round_binary64 r =
     (if r = 0 then Fin 0
      else let a = \<bar>r\<bar>;
               e = max (ilog2 a) (- 1022) - 52;
               m = round_half_even (a / pow2 e);
               v = of_int m * pow2 e
           in if 2 ^ 1024 \<le> v then (if r < 0 then NInf else PInf)
              else Fin (of_rat (if r < 0 then - v else v)))"

definition py_float :: "string \<Rightarrow> pyfloat option" where
  "py_float text =
     (case strip_underscores (CHR 0x00) (strip text) of
        None \<Rightarrow> None
      | Some s \<Rightarrow>
          (let (neg, body) = split_sign s; lb = map lower body
           in if lb = ''inf'' \<or> lb = ''infinity'' then Some (if neg then NInf else PInf)
              else if lb = ''nan'' then Some NaN
              else map_option (\<lambda>r. round_binary64 (if neg then - r else r))
                     (parse_decimal body)))"

section \<open>Tables, snapshots and the session state\<close>

text \<open>
  A table has the two columns \<open>Date Time\<close> and \<open>Power\<close>. A \<open>Date Time\<close> cell is text
  or missing; a \<open>Power\<close> cell is a float, text (typed into the grid) or missing.
  Data frames are mutable objects: the session holds references (indices into \<open>frames\<close>),
  \<open>DataFrame.copy\<close> and \<open>pd.concat\<close> allocate a new object, and a column assignment
  writes into the object it is applied to.
\<close>

datatype tcell = TStr string | TNone

datatype cell = CFloat pyfloat | CStr string | CNone

type_synonym row = "tcell \<times> cell"

type_synonym frame = "row list"

datatype level = Success | Error

datatype message = Text string | Added string pyfloat

record snapshot =
  name :: string
  snap_df :: nat
  timestamp :: string

record session =
  frames :: "frame list"
  df :: nat
  history :: "snapshot list"
  edit_mode :: bool
  power_input :: string
  last_input_status :: "(level \<times> message) option"

definition POWER_MIN :: int where
  "POWER_MIN = - 150"

definition POWER_MAX :: int where
  "POWER_MAX = 150"

text \<open>A reference always points to an allocated frame; the \<open>else\<close> branch is never reached
  from \<open>init_session\<close>.\<close>

definition deref :: "session \<Rightarrow> nat \<Rightarrow> frame" where
  "deref s a = (if a < length (frames s) then frames s ! a else [])"

definition alloc :: "frame \<Rightarrow> session \<Rightarrow> nat \<times> session" where
  "alloc fr s = (length (frames s), s\<lparr>frames := frames s @ [fr]\<rparr>)"

definition init_session :: session where
  "init_session = \<lparr>frames = [[]], df = 0, history = [], edit_mode = True,
                    power_input = [], last_input_status = None\<rparr>"

section \<open>Appending a reading: \<open>handle_add_power\<close>\<close>

text \<open>
  The callback of the input box. \<open>now\<close> is the text of
  \<^verbatim>\<open>datetime.now().strftime("%Y-%m-%d %H:%M:%S")\<close> at the call. The range test is the
  source's \<^verbatim>\<open>power_val < POWER_MIN or power_val > POWER_MAX\<close>. \<open>pd.concat\<close> builds
  a new frame, which becomes the table of the session.
\<close>

definition handle_add_power :: "string \<Rightarrow> session \<Rightarrow> session" where
  "handle_add_power now s =
     (let text = strip (power_input s)
      in if text = [] then s\<lparr>last_input_status := Some (Error, Text ''Please input a value.'')\<rparr>
         else case py_float text of
           None \<Rightarrow> s\<lparr>last_input_status := Some (Error, Text ''Please input a valid number.'')\<rparr>
         | Some power_val \<Rightarrow>
             if pf_lt power_val (pf_of_int POWER_MIN) \<or> pf_lt (pf_of_int POWER_MAX) power_val
             then s\<lparr>last_input_status :=
                      Some (Error, Text ''Power must be between -150 and 150.'')\<rparr>
             else (let new_row = [(TStr now, CFloat power_val)];
                       (a, s1) = alloc (deref s (df s) @ new_row) s
                   in s1\<lparr>df := a,
                         last_input_status := Some (Success, Added now power_val),
                         power_input := []\<rparr>))"

text \<open>The button \<open>Clear data\<close> replaces the table by a new empty frame.\<close>

definition clear_data :: "session \<Rightarrow> session" where
  "clear_data s =
     (let (a, s1) = alloc [] s
      in s1\<lparr>df := a, last_input_status := Some (Success, Text ''All data cleared from table.'')\<rparr>)"

section \<open>The snapshot history\<close>

text \<open>
  \<open>add_to_history\<close> is given the frame \<open>d\<close> and a name: it returns at once when the
  frame has no rows, and otherwise puts a copy of it first in the history and keeps
  \<^verbatim>\<open>history[:5]\<close>. A download (\<open>export_download\<close>) copies the table and passes the copy on,
  unless the table is empty. The restore button of entry \<open>i\<close> exists for the entries of
  the history only; it makes a copy of the snapshot's frame the table.
\<close>

definition add_to_history :: "string \<Rightarrow> nat \<Rightarrow> string \<Rightarrow> session \<Rightarrow> session" where
  "add_to_history now d nm s =
     (if deref s d = [] then s
      else (let (a, s1) = alloc (deref s d) s;
                item = \<lparr>name = nm, snap_df = a, timestamp = now\<rparr>
            in s1\<lparr>history := take 5 (item # history s1)\<rparr>))"

definition export_download :: "string \<Rightarrow> string \<Rightarrow> session \<Rightarrow> session" where
  "export_download now filename_base s =
     (if deref s (df s) = [] then s
      else (let (df_export, s1) = alloc (deref s (df s)) s
            in add_to_history now df_export (filename_base @ '' (export)'') s1))"

definition restore_snapshot :: "nat \<Rightarrow> session \<Rightarrow> session" where
  "restore_snapshot i s =
     (if i < length (history s)
      then (let (a, s1) = alloc (deref s (snap_df (history s ! i))) s in s1\<lparr>df := a\<rparr>)
      else s)"

text \<open>
  To state properties of the history: a snapshot seen as its name, rows and timestamp,
  and a caller that builds the tables of a list one after the other and passes each to
  \<open>add_to_history\<close>.
\<close>

definition view :: "session \<Rightarrow> snapshot \<Rightarrow> string \<times> frame \<times> string" where
  "view s sn = (name sn, deref s (snap_df sn), timestamp sn)"

fun insert_all :: "(string \<times> frame \<times> string) list \<Rightarrow> session \<Rightarrow> session" where
  "insert_all [] s = s"
| "insert_all ((nm, rows, now) # xs) s =
     (let (d, s1) = alloc rows s in insert_all xs (add_to_history now d nm s1))"

section \<open>Numeric coercion and the grid commit\<close>

text \<open>
  \<^verbatim>\<open>pd.to_numeric(..., errors="coerce")\<close> on one cell: a float is kept, a missing value is
  NaN, and text is read as a number or becomes NaN. How the library reads text is a
  parameter \<open>P\<close> of the model (\<open>None\<close> when the text is not a number). \<open>between\<close> is
  \<open>Series.between\<close>, inclusive at both ends and false for NaN.
\<close>

definition to_numeric :: "(string \<Rightarrow> pyfloat option) \<Rightarrow> cell \<Rightarrow> pyfloat" where
  "to_numeric P c = (case c of CFloat v \<Rightarrow> v
                     | CStr t \<Rightarrow> (case P t of None \<Rightarrow> NaN | Some v \<Rightarrow> v)
                     | CNone \<Rightarrow> NaN)"

definition between :: "pyfloat \<Rightarrow> int \<Rightarrow> int \<Rightarrow> bool" where
  "between v lo hi = (pf_le (pf_of_int lo) v \<and> pf_le v (pf_of_int hi))"

definition notna :: "pyfloat \<Rightarrow> bool" where
  "notna v = (\<not> isnan v)"

text \<open>The value held by a cell of a column that has been coerced to floats.\<close>

definition cell_value :: "cell \<Rightarrow> pyfloat" where
  "cell_value c = (case c of CFloat v \<Rightarrow> v | _ \<Rightarrow> NaN)"

definition is_float_cell :: "cell \<Rightarrow> bool" where
  "is_float_cell c = (case c of CFloat v \<Rightarrow> True | _ \<Rightarrow> False)"

text \<open>
  The editable grid, shown in edit mode. \<open>st.data_editor\<close> returns a new frame, \<open>edited\<close>,
  with the rows as the operator left them. The source assigns the coerced column to that
  frame, computes the mask of the rows outside the range that are not NaN, warns when the
  mask has an entry, and stores the frame as the table. The result is the warning flag and
  the session. The column \<open>Power\<close> is always present in the model.
\<close>

definition commit_edit :: "(string \<Rightarrow> pyfloat option) \<Rightarrow> frame \<Rightarrow> session \<Rightarrow> bool \<times> session" where
  "commit_edit P edited s =
     (if edit_mode s
      then (let (a, s1) = alloc edited s;
                coerced = map (\<lambda>(t, c). (t, CFloat (to_numeric P c))) (deref s1 a);
                s2 = s1\<lparr>frames := (frames s1)[a := coerced]\<rparr>;
                invalid_mask = map (\<lambda>(t, c). \<not> between (cell_value c) POWER_MIN POWER_MAX
                                              \<and> notna (cell_value c)) (deref s2 a)
            in (list_ex (\<lambda>b. b) invalid_mask, s2\<lparr>df := a\<rparr>))
      else (False, s))"

section \<open>A session as a sequence of interactions\<close>

text \<open>
  The interactions that change the table or the history, and a session run through a
  list of them. In a well-formed session every reference points to an allocated frame.
\<close>

datatype action =
    AddPower string string
  | EditAll
  | LockTable
  | ClearData
  | CommitEdit frame
  | Restore nat
  | Export string string

fun step :: "(string \<Rightarrow> pyfloat option) \<Rightarrow> action \<Rightarrow> session \<Rightarrow> session" where
  "step P (AddPower text now) s = handle_add_power now (s\<lparr>power_input := text\<rparr>)"
| "step P EditAll s = s\<lparr>edit_mode := True\<rparr>"
| "step P LockTable s = s\<lparr>edit_mode := False\<rparr>"
| "step P ClearData s = clear_data s"
| "step P (CommitEdit edited) s = snd (commit_edit P edited s)"
| "step P (Restore i) s = restore_snapshot i s"
| "step P (Export now filename_base) s = export_download now filename_base s"

fun run :: "(string \<Rightarrow> pyfloat option) \<Rightarrow> action list \<Rightarrow> session \<Rightarrow> session" where
  "run P [] s = s"
| "run P (a # as) s = run P as (step P a s)"

definition wf_session :: "session \<Rightarrow> bool" where
  "wf_session s = (df s < length (frames s) \<and>
                   list_all (\<lambda>sn. snap_df sn < length (frames s)) (history s))"

section \<open>The status label: \<open>power_status_label\<close>\<close>

text \<open>The label is a pair of an emoji and a text; the emoji is given by its name.\<close>

datatype emoji = WhiteCircle | WarningSign | YellowCircle | GreenCircle

definition power_status_label :: "pyfloat option \<Rightarrow> emoji \<times> string" where
  "power_status_label val =
     (case val of
        None \<Rightarrow> (WhiteCircle, ''No data'')
      | Some x \<Rightarrow>
          (let v = pf_abs x
           in if pf_lt (pf_of_int 120) v then (WarningSign, ''High power alert'')
              else if pf_lt (pf_of_int 60) v then (YellowCircle, ''Medium usage'')
              else (GreenCircle, ''Normal'')))"

section \<open>Arithmetic on floats\<close>

text \<open>
  On finite values the operations are exact: the rounding of binary64 results is not
  modelled. Infinities and NaN follow the IEEE rules. \<open>pf_div_nat\<close> divides by a count,
  which is positive wherever it is used; \<open>pf_scale\<close> multiplies by a finite factor.
\<close>

fun pf_add :: "pyfloat \<Rightarrow> pyfloat \<Rightarrow> pyfloat" where
  "pf_add NaN _ = NaN"
| "pf_add _ NaN = NaN"
| "pf_add (Fin a) (Fin b) = Fin (a + b)"
| "pf_add PInf NInf = NaN"
| "pf_add NInf PInf = NaN"
| "pf_add PInf _ = PInf"
| "pf_add _ PInf = PInf"
| "pf_add NInf _ = NInf"
| "pf_add _ NInf = NInf"



fun pf_div_nat :: "pyfloat \<Rightarrow> nat \<Rightarrow> pyfloat" where
  "pf_div_nat (Fin a) n = Fin (a / real n)"
| "pf_div_nat v n = v"






definition pf_sum :: "pyfloat list \<Rightarrow> pyfloat" where
  "pf_sum xs = foldl pf_add (Fin 0) xs"








section \<open>Descriptive statistics: \<open>compute_power_stats\<close>\<close>

















section \<open>Preparing the chart data: \<open>prepare_plot_df\<close> and the visualization tab\<close>

text \<open>
  \<open>pd.to_datetime\<close> reads the text of a \<open>Date Time\<close> cell as an instant, as a missing
  instant (NaT), or fails. The reading is a parameter \<open>D\<close> of the model; it is given the
  whole column as well, since the format may be inferred from the other cells. The call
  raises as soon as one text fails; \<open>prepare_plot_df\<close> catches the exception and leaves
  the column as it was (\<open>raw_time\<close>). The function works on a copy of the table.
\<close>

datatype dtparse = DtOk int | DtNaT | DtFail

datatype dtcell = DStamp int | DNaT | DRaw string | DNone

type_synonym plot_row = "dtcell \<times> pyfloat"

definition to_datetime :: "(tcell list \<Rightarrow> string \<Rightarrow> dtparse) \<Rightarrow> tcell list \<Rightarrow> dtcell list option" where
  "to_datetime D col =
     (if list_ex (\<lambda>c. case c of TStr u \<Rightarrow> D col u = DtFail | TNone \<Rightarrow> False) col then None
      else Some (map (\<lambda>c. case c of TNone \<Rightarrow> DNaT
                           | TStr u \<Rightarrow> (case D col u of DtOk n \<Rightarrow> DStamp n | _ \<Rightarrow> DNaT)) col))"

definition raw_time :: "tcell \<Rightarrow> dtcell" where
  "raw_time c = (case c of TStr u \<Rightarrow> DRaw u | TNone \<Rightarrow> DNone)"

definition prepare_plot_df ::
  "(tcell list \<Rightarrow> string \<Rightarrow> dtparse) \<Rightarrow> (string \<Rightarrow> pyfloat option) \<Rightarrow> frame \<Rightarrow> plot_row list" where
  "prepare_plot_df D P fr =
     (let times = (case to_datetime D (map fst fr) of
                     Some ts \<Rightarrow> ts
                   | None \<Rightarrow> map raw_time (map fst fr));
          power = map (\<lambda>(t, c). to_numeric P c) fr
      in filter (\<lambda>(t, v). notna v) (zip times power))"

definition time_isna :: "dtcell \<Rightarrow> bool" where
  "time_isna t = (t = DNaT \<or> t = DNone)"

text \<open>
  The frame of the chart after the second \<open>dropna\<close>, on both columns:
  \<^verbatim>\<open>df_plot.dropna(subset=["Date Time", "Power"])\<close>.
\<close>

definition plot_frame ::
  "(tcell list \<Rightarrow> string \<Rightarrow> dtparse) \<Rightarrow> (string \<Rightarrow> pyfloat option) \<Rightarrow> frame \<Rightarrow> plot_row list" where
  "plot_frame D P fr =
     filter (\<lambda>(t, v). \<not> time_isna t \<and> notna v) (prepare_plot_df D P fr)"

text \<open>
  \<open>sort_values\<close> orders instants by time and raw texts as Python orders strings, missing
  values last. The column is never mixed when it is sorted. The model sorts stably; the
  order of rows with equal timestamps is not fixed by the library's default sort.
\<close>

definition dt_key :: "dtcell \<Rightarrow> nat \<times> int \<times> string" where
  "dt_key t = (case t of DStamp n \<Rightarrow> (0, n, []) | DRaw u \<Rightarrow> (1, 0, u)
               | DNaT \<Rightarrow> (2, 0, []) | DNone \<Rightarrow> (2, 0, []))"

definition sort_values :: "(dtcell \<times> 'a) list \<Rightarrow> (dtcell \<times> 'a) list" where
  "sort_values rows = sort_key (\<lambda>(t, v). dt_key t) rows"

text \<open>
  To state which rows are dropped: the timestamp cell that \<open>prepare_plot_df\<close> leaves for a
  cell of the table, and the cells whose row the second \<open>dropna\<close> removes for its
  timestamp: a missing one, or, when the whole column has parsed, a text read as NaT.
\<close>

definition conv_time :: "(tcell list \<Rightarrow> string \<Rightarrow> dtparse) \<Rightarrow> tcell list \<Rightarrow> tcell \<Rightarrow> dtcell" where
  "conv_time D col t =
     (case to_datetime D col of
        Some ts \<Rightarrow> (case t of TNone \<Rightarrow> DNaT
                    | TStr u \<Rightarrow> (case D col u of DtOk n \<Rightarrow> DStamp n | _ \<Rightarrow> DNaT))
      | None \<Rightarrow> raw_time t)"

definition time_dropped :: "(tcell list \<Rightarrow> string \<Rightarrow> dtparse) \<Rightarrow> tcell list \<Rightarrow> tcell \<Rightarrow> bool" where
  "time_dropped D col t =
     (t = TNone \<or> (to_datetime D col \<noteq> None \<and> (\<exists>u. t = TStr u \<and> D col u = DtNaT)))"

text \<open>
  \<^verbatim>\<open>Series.rolling(window=w, center=True, min_periods=1).mean()\<close>: the window of position
  \<open>i\<close> ends after position \<open>i + (w - 1) div 2\<close> and holds \<open>w\<close> positions, cut at both ends
  of the series (the subtraction on \<open>nat\<close> stops at 0); the result is the mean of the
  values of the window that are not NaN, and NaN when there is none.
\<close>

definition rolling_window :: "nat \<Rightarrow> nat \<Rightarrow> 'a list \<Rightarrow> 'a list" where
  "rolling_window w i xs =
     (let stop = i + 1 + (w - 1) div 2;
          start = stop - w
      in take (min (length xs) stop - start) (drop start xs))"

definition rolling_mean :: "nat \<Rightarrow> pyfloat list \<Rightarrow> pyfloat list" where
  "rolling_mean w xs =
     map (\<lambda>i. let obs = filter notna (rolling_window w i xs)
              in if length obs < 1 then NaN else pf_div_nat (pf_sum obs) (length obs))
       [0..<length xs]"

text \<open>
  The controls of the chart that act on its data, and the data of the chart: \<open>NoData\<close>
  and \<open>NoMatch\<close> are the two messages shown in place of a chart; a plotted row holds the
  timestamp, \<open>Power\<close> and \<open>Power_plot\<close>. The window is one of 3, 5 and 7, and the range is
  the pair of integers of the slider.
\<close>

record chart_controls =
  sort_time :: bool
  power_range :: "int \<times> int"
  smoothing_enabled :: bool
  smoothing_window :: nat

datatype chart = NoData | NoMatch | Plot "(dtcell \<times> pyfloat \<times> pyfloat) list"

definition tab_visual ::
  "(tcell list \<Rightarrow> string \<Rightarrow> dtparse) \<Rightarrow> (string \<Rightarrow> pyfloat option) \<Rightarrow> chart_controls \<Rightarrow> frame
     \<Rightarrow> chart" where
  "tab_visual D P ctl fr =
     (if prepare_plot_df D P fr = [] then NoData
      else (let df1 = plot_frame D P fr;
                df2 = (if sort_time ctl then sort_values df1 else df1);
                df3 = filter (\<lambda>(t, v). between v (fst (power_range ctl)) (snd (power_range ctl))) df2
            in if df3 = [] then NoMatch
               else (let power = map snd df3;
                         power_plot = (if smoothing_enabled ctl
                                       then rolling_mean (smoothing_window ctl) power
                                       else power)
                     in Plot (zip (map fst df3) (zip power power_plot)))))"

section \<open>Properties of \<open>handle_add_power\<close>\<close>

lemma py_float_nan: "py_float ''nan'' = Some NaN"
  by code_simp

lemma strip_nan: "strip ''nan'' = ''nan''"
  by code_simp

text \<open>
  The four branches of the callback, for a finite parsed value, and the examples of the
  specification: both bounds are accepted, 200 is out of range, \<open>abc\<close> is not a number
  and blank text is an empty input. The failure branches change the status only.
\<close>

lemma handle_add_power_branches:
  shows "strip (power_input s) = [] \<Longrightarrow>
         handle_add_power now s =
           s\<lparr>last_input_status := Some (Error, Text ''Please input a value.'')\<rparr>"
    and "strip (power_input s) \<noteq> [] \<Longrightarrow> py_float (strip (power_input s)) = None \<Longrightarrow>
         handle_add_power now s =
           s\<lparr>last_input_status := Some (Error, Text ''Please input a valid number.'')\<rparr>"
    and "strip (power_input s) \<noteq> [] \<Longrightarrow> py_float (strip (power_input s)) = Some (Fin r) \<Longrightarrow>
         r < - 150 \<or> 150 < r \<Longrightarrow>
         handle_add_power now s =
           s\<lparr>last_input_status := Some (Error, Text ''Power must be between -150 and 150.'')\<rparr>"
    and "strip (power_input s) \<noteq> [] \<Longrightarrow> py_float (strip (power_input s)) = Some (Fin r) \<Longrightarrow>
         - 150 \<le> r \<Longrightarrow> r \<le> 150 \<Longrightarrow>
         deref (handle_add_power now s) (df (handle_add_power now s)) =
           deref s (df s) @ [(TStr now, CFloat (Fin r))] \<and>
         last_input_status (handle_add_power now s) = Some (Success, Added now (Fin r))"
  by (auto simp: handle_add_power_def pf_of_int_def POWER_MIN_def POWER_MAX_def alloc_def
      deref_def Let_def)

lemma handle_add_power_examples:
  "deref (handle_add_power ''t'' (init_session\<lparr>power_input := ''150''\<rparr>)) 1
     = [(TStr ''t'', CFloat (Fin 150))]"
  "deref (handle_add_power ''t'' (init_session\<lparr>power_input := '' -150 ''\<rparr>)) 1
     = [(TStr ''t'', CFloat (Fin (- 150)))]"
  "handle_add_power ''t'' (init_session\<lparr>power_input := ''200''\<rparr>) =
     init_session\<lparr>power_input := ''200'',
       last_input_status := Some (Error, Text ''Power must be between -150 and 150.'')\<rparr>"
  "handle_add_power ''t'' (init_session\<lparr>power_input := ''abc''\<rparr>) =
     init_session\<lparr>power_input := ''abc'',
       last_input_status := Some (Error, Text ''Please input a valid number.'')\<rparr>"
  "handle_add_power ''t'' (init_session\<lparr>power_input := ''   ''\<rparr>) =
     init_session\<lparr>power_input := ''   '',
       last_input_status := Some (Error, Text ''Please input a value.'')\<rparr>"
  by code_simp+

text \<open>
  C1. The text \<open>nan\<close> is not blank and parses, and NaN is not a value of the interval
  from -150 to 150; yet the call does not take the out-of-range branch: the table gets a
  new row holding NaN and the status is a success.
\<close>

theorem handle_add_power_nan_accepted:
  "\<not> (pf_le (pf_of_int POWER_MIN) NaN \<and> pf_le NaN (pf_of_int POWER_MAX)) \<and>
   (let s' = handle_add_power ''2024-01-01 00:00:00'' (init_session\<lparr>power_input := ''nan''\<rparr>)
    in deref s' (df s') = [(TStr ''2024-01-01 00:00:00'', CFloat NaN)] \<and>
       last_input_status s' = Some (Success, Added ''2024-01-01 00:00:00'' NaN) \<and>
       deref s' (df s') \<noteq> deref init_session (df init_session))"
  by (simp add: handle_add_power_def strip_nan py_float_nan pf_of_int_def POWER_MIN_def
      POWER_MAX_def alloc_def deref_def init_session_def)

text \<open>
  C9. For the input text \<open>nan\<close>, in any session and at any instant: both range
  comparisons are false, a row with the current instant and the value NaN is appended to
  the table, a success is reported and the input box is cleared.
\<close>

theorem handle_add_power_nan:
  "\<not> pf_lt NaN (pf_of_int POWER_MIN) \<and> \<not> pf_lt (pf_of_int POWER_MAX) NaN \<and>
   py_float ''nan'' = Some NaN \<and>
   (let s' = handle_add_power now (s\<lparr>power_input := ''nan''\<rparr>)
    in deref s' (df s') = deref s (df s) @ [(TStr now, CFloat NaN)] \<and>
       last_input_status s' = Some (Success, Added now NaN) \<and>
       power_input s' = [] \<and> history s' = history s)"
  by (simp add: handle_add_power_def strip_nan py_float_nan pf_of_int_def
      alloc_def deref_def)

section \<open>Frames, references and well-formed sessions\<close>

lemma deref_alloc_old:
  "a < length (frames s) \<Longrightarrow> deref (snd (alloc fr s)) a = deref s a"
  by (simp add: deref_def alloc_def nth_append)

lemma deref_alloc_new: "deref (snd (alloc fr s)) (fst (alloc fr s)) = fr"
  by (simp add: deref_def alloc_def)

lemma add_to_history_empty: "deref s d = [] \<Longrightarrow> add_to_history now d nm s = s"
  by (simp add: add_to_history_def)

lemma add_to_history_nonempty:
  "deref s d \<noteq> [] \<Longrightarrow>
   history (add_to_history now d nm s) =
     take 5 (\<lparr>name = nm, snap_df = length (frames s), timestamp = now\<rparr> # history s) \<and>
   frames (add_to_history now d nm s) = frames s @ [deref s d] \<and>
   df (add_to_history now d nm s) = df s"
  by (simp add: add_to_history_def alloc_def)

lemma add_to_history_length:
  "length (history s) \<le> 5 \<Longrightarrow> length (history (add_to_history now d nm s)) \<le> 5"
  by (simp add: add_to_history_def alloc_def)

lemma wf_alloc: "wf_session s \<Longrightarrow> wf_session (snd (alloc fr s))"
  by (auto simp: wf_session_def alloc_def list_all_iff)

lemma wf_add_to_history: "wf_session s \<Longrightarrow> wf_session (add_to_history now d nm s)"
  by (auto simp: wf_session_def add_to_history_def alloc_def list_all_iff dest!: in_set_takeD)

lemma view_frames_append:
  "snap_df sn < length (frames s) \<Longrightarrow> frames s' = frames s @ ext \<Longrightarrow> view s' sn = view s sn"
  by (simp add: view_def deref_def nth_append)

lemma map_view_frames_append:
  assumes "list_all (\<lambda>sn. snap_df sn < length (frames s)) hs" "frames s' = frames s @ ext"
  shows "map (view s') hs = map (view s) hs"
  using assms by (auto simp: list_all_iff intro: view_frames_append)

lemma take_append_take: "take n (A @ take n B) = take n (A @ B)"
  by (simp add: min_def)

lemma insert_step_views:
  assumes "wf_session s"
  shows "map (view (add_to_history now (fst (alloc rows s)) nm (snd (alloc rows s))))
           (history (add_to_history now (fst (alloc rows s)) nm (snd (alloc rows s)))) =
         (if rows = [] then map (view s) (history s)
          else take 5 ((nm, rows, now) # map (view s) (history s)))"
proof -
  let ?s1 = "snd (alloc rows s)" and ?d = "fst (alloc rows s)"
  have old: "list_all (\<lambda>sn. snap_df sn < length (frames s)) (history s)"
    using assms by (simp add: wf_session_def)
  have d: "deref ?s1 ?d = rows" by (rule deref_alloc_new)
  have h1: "history ?s1 = history s" by (simp add: alloc_def)
  show ?thesis
  proof (cases "rows = []")
    case True
    then have "add_to_history now ?d nm ?s1 = ?s1"
      using d by (simp add: add_to_history_empty)
    moreover have "map (view ?s1) (history s) = map (view s) (history s)"
      by (rule map_view_frames_append [OF old]) (simp add: alloc_def)
    ultimately show ?thesis using True h1 by simp
  next
    case False
    let ?s2 = "add_to_history now ?d nm ?s1"
    have nz: "deref ?s1 ?d \<noteq> []" using d False by simp
    have fr: "frames ?s2 = frames s @ [rows, rows]"
      using add_to_history_nonempty [OF nz, of now nm] d by (simp add: alloc_def)
    have hs: "history ?s2 =
        take 5 (\<lparr>name = nm, snap_df = Suc (length (frames s)), timestamp = now\<rparr> # history s)"
      using add_to_history_nonempty [OF nz, of now nm] h1 by (simp add: alloc_def)
    have new: "view ?s2 \<lparr>name = nm, snap_df = Suc (length (frames s)), timestamp = now\<rparr>
        = (nm, rows, now)"
      by (simp add: view_def deref_def fr nth_append)
    have eq: "map (view ?s2) (history s) = map (view s) (history s)"
      by (rule map_view_frames_append [OF old fr])
    have "map (view ?s2) (history ?s2) =
        take 5 (map (view ?s2)
          (\<lparr>name = nm, snap_df = Suc (length (frames s)), timestamp = now\<rparr> # history s))"
      unfolding hs by (simp only: take_map)
    also have "\<dots> = take 5 ((nm, rows, now) # map (view s) (history s))"
      by (simp only: list.map new eq)
    finally show ?thesis using False by (simp only: if_False)
  qed
qed

lemma insert_all_views:
  "wf_session s \<Longrightarrow> length (history s) \<le> 5 \<Longrightarrow>
   map (view (insert_all xs s)) (history (insert_all xs s)) =
     take 5 (rev (filter (\<lambda>(nm, rows, now). rows \<noteq> []) xs) @ map (view s) (history s))"
proof (induction xs arbitrary: s)
  case Nil
  then show ?case by simp
next
  case (Cons x xs)
  obtain nm rows now where x: "x = (nm, rows, now)" by (cases x) auto
  let ?s2 = "add_to_history now (fst (alloc rows s)) nm (snd (alloc rows s))"
  have wf2: "wf_session ?s2"
    using Cons.prems by (intro wf_add_to_history wf_alloc)
  have len2: "length (history ?s2) \<le> 5"
    using Cons.prems by (intro add_to_history_length) (simp add: alloc_def)
  have run: "insert_all (x # xs) s = insert_all xs ?s2"
    by (simp add: x split_beta)
  have step: "map (view ?s2) (history ?s2) =
      (if rows = [] then map (view s) (history s)
       else take 5 ((nm, rows, now) # map (view s) (history s)))"
    by (rule insert_step_views [OF Cons.prems(1)])
  show ?case
  proof (cases "rows = []")
    case True
    then show ?thesis using Cons.IH [OF wf2 len2] step by (simp only: run) (simp add: x)
  next
    case False
    have "map (view (insert_all xs ?s2)) (history (insert_all xs ?s2)) =
        take 5 (rev (filter (\<lambda>(nm, rows, now). rows \<noteq> []) xs) @
                take 5 ((nm, rows, now) # map (view s) (history s)))"
      using Cons.IH [OF wf2 len2] step False by (simp only: if_False)
    also have "\<dots> = take 5 (rev (filter (\<lambda>(nm, rows, now). rows \<noteq> []) xs) @
                (nm, rows, now) # map (view s) (history s))"
      by (rule take_append_take)
    finally show ?thesis using False by (simp only: run) (simp add: x)
  qed
qed

lemma handle_add_power_frames:
  "\<exists>ext. frames (handle_add_power now s) = frames s @ ext"
  by (auto simp: handle_add_power_def alloc_def Let_def split: option.splits)

lemma commit_edit_frames:
  "\<exists>ext. frames (snd (commit_edit P edited s)) = frames s @ ext"
  by (simp add: commit_edit_def alloc_def Let_def)

lemma add_to_history_frames:
  "\<exists>ext. frames (add_to_history now d nm s) = frames s @ ext"
  by (simp add: add_to_history_def alloc_def Let_def)

lemma export_download_frames:
  "\<exists>ext. frames (export_download now fb s) = frames s @ ext"
proof (cases "deref s (df s) = []")
  case True
  then show ?thesis by (simp add: export_download_def)
next
  case False
  obtain ext where "frames (add_to_history now (fst (alloc (deref s (df s)) s))
      (fb @ '' (export)'') (snd (alloc (deref s (df s)) s)))
      = frames (snd (alloc (deref s (df s)) s)) @ ext"
    using add_to_history_frames by blast
  then show ?thesis using False by (simp add: export_download_def split_beta alloc_def)
qed

lemma step_frames: "\<exists>ext. frames (step P a s) = frames s @ ext"
proof (cases a)
  case (AddPower inp now)
  then show ?thesis using handle_add_power_frames [of now "s\<lparr>power_input := inp\<rparr>"] by simp
next
  case (CommitEdit edited)
  then show ?thesis using commit_edit_frames by simp
next
  case (Export now fb)
  then show ?thesis using export_download_frames by simp
qed (simp_all add: clear_data_def restore_snapshot_def alloc_def)

lemma run_frames: "\<exists>ext. frames (run P as s) = frames s @ ext"
proof (induction as arbitrary: s)
  case Nil
  show ?case by simp
next
  case (Cons a as)
  obtain e1 where e1: "frames (step P a s) = frames s @ e1" using step_frames by blast
  obtain e2 where "frames (run P as (step P a s)) = frames (step P a s) @ e2"
    using Cons.IH by blast
  then show ?case using e1 by simp
qed

lemma run_deref:
  assumes "a < length (frames s)"
  shows "deref (run P as s) a = deref s a"
proof -
  obtain ext where "frames (run P as s) = frames s @ ext" using run_frames by blast
  then show ?thesis using assms by (simp add: deref_def nth_append)
qed

lemma wf_init: "wf_session init_session"
  by (simp add: wf_session_def init_session_def)

lemma wf_handle_add_power: "wf_session s \<Longrightarrow> wf_session (handle_add_power now s)"
  by (auto simp: wf_session_def handle_add_power_def alloc_def Let_def list_all_iff
      split: option.splits)

lemma wf_step: "wf_session s \<Longrightarrow> wf_session (step P a s)"
proof (cases a)
  case (AddPower inp now)
  assume "wf_session s"
  then have "wf_session (s\<lparr>power_input := inp\<rparr>)" by (simp add: wf_session_def)
  then show ?thesis using AddPower by (simp add: wf_handle_add_power)
next
  case (Export now fb)
  assume "wf_session s"
  then show ?thesis using Export
    by (simp add: export_download_def split_beta wf_add_to_history wf_alloc)
qed (auto simp: wf_session_def clear_data_def restore_snapshot_def commit_edit_def
       alloc_def Let_def list_all_iff)

lemma wf_run: "wf_session s \<Longrightarrow> wf_session (run P as s)"
  by (induction as arbitrary: s) (simp_all add: wf_step)

section \<open>Properties of the snapshot history\<close>

text \<open>
  C2. \<open>add_to_history\<close> on an empty table leaves the session as it is. On a non-empty
  table it stores a copy (a new frame with the same rows) as the first entry and keeps the
  first five entries. From any session whose history has at most five entries, any
  sequence of inserts leaves at most five snapshots: the most recent non-empty tables,
  most recent first.
\<close>

theorem add_to_history_keeps_five:
  "(deref s d = [] \<longrightarrow> add_to_history now d nm s = s) \<and>
   (deref s d \<noteq> [] \<longrightarrow>
      history (add_to_history now d nm s) =
        take 5 (\<lparr>name = nm, snap_df = length (frames s), timestamp = now\<rparr> # history s) \<and>
      deref (add_to_history now d nm s) (length (frames s)) = deref s d) \<and>
   (wf_session s \<and> length (history s) \<le> 5 \<longrightarrow>
      length (history (insert_all xs s)) \<le> 5 \<and>
      map (view (insert_all xs s)) (history (insert_all xs s)) =
        take 5 (rev (filter (\<lambda>(nm, rows, now). rows \<noteq> []) xs) @
                map (view s) (history s)))"
proof (intro conjI impI)
  assume "deref s d = []"
  then show "add_to_history now d nm s = s" by (rule add_to_history_empty)
next
  assume nz: "deref s d \<noteq> []"
  show "history (add_to_history now d nm s) =
        take 5 (\<lparr>name = nm, snap_df = length (frames s), timestamp = now\<rparr> # history s)"
    using add_to_history_nonempty [OF nz] by blast
  have "frames (add_to_history now d nm s) = frames s @ [deref s d]"
    using add_to_history_nonempty [OF nz] by blast
  then show "deref (add_to_history now d nm s) (length (frames s)) = deref s d"
    by (simp add: deref_def)
next
  assume a: "wf_session s \<and> length (history s) \<le> 5"
  have v: "map (view (insert_all xs s)) (history (insert_all xs s)) =
        take 5 (rev (filter (\<lambda>(nm, rows, now). rows \<noteq> []) xs) @ map (view s) (history s))"
    using a by (intro insert_all_views) simp_all
  show "map (view (insert_all xs s)) (history (insert_all xs s)) =
        take 5 (rev (filter (\<lambda>(nm, rows, now). rows \<noteq> []) xs) @
                map (view s) (history s))"
    by (rule v)
  have "length (map (view (insert_all xs s)) (history (insert_all xs s))) \<le> 5"
    unfolding v by simp
  then show "length (history (insert_all xs s)) \<le> 5" by simp
qed


theorem add_to_history_keeps_five_witness:
  "add_to_history ''t7'' 0 ''g'' init_session = init_session \<and>
   history (add_to_history ''t7'' 1 ''g''
              (init_session\<lparr>frames := [[], [(TStr ''t0'', CFloat (Fin 7))]], df := 1\<rparr>)) =
     [\<lparr>name = ''g'', snap_df = 2, timestamp = ''t7''\<rparr>] \<and>
   length (history (insert_all
      [(''a'', [(TStr ''t0'', CFloat (Fin 1))], ''t1''),
       (''b'', [(TStr ''t0'', CFloat (Fin 2))], ''t2''),
       (''c'', [(TStr ''t0'', CFloat (Fin 3))], ''t3''),
       (''x'', [], ''t3''),
       (''d'', [(TStr ''t0'', CFloat (Fin 4))], ''t4''),
       (''e'', [(TStr ''t0'', CFloat (Fin 5))], ''t5''),
       (''f'', [(TStr ''t0'', CFloat (Fin 6))], ''t6'')] init_session)) \<le> 5 \<and>
   (let s' = insert_all
      [(''a'', [(TStr ''t0'', CFloat (Fin 1))], ''t1''),
       (''b'', [(TStr ''t0'', CFloat (Fin 2))], ''t2''),
       (''c'', [(TStr ''t0'', CFloat (Fin 3))], ''t3''),
       (''x'', [], ''t3''),
       (''d'', [(TStr ''t0'', CFloat (Fin 4))], ''t4''),
       (''e'', [(TStr ''t0'', CFloat (Fin 5))], ''t5''),
       (''f'', [(TStr ''t0'', CFloat (Fin 6))], ''t6'')] init_session
    in map (view s') (history s') =
      [(''f'', [(TStr ''t0'', CFloat (Fin 6))], ''t6''),
       (''e'', [(TStr ''t0'', CFloat (Fin 5))], ''t5''),
       (''d'', [(TStr ''t0'', CFloat (Fin 4))], ''t4''),
       (''c'', [(TStr ''t0'', CFloat (Fin 3))], ''t3''),
       (''b'', [(TStr ''t0'', CFloat (Fin 2))], ''t2'')])"
proof -
  have wf: "wf_session init_session \<and> length (history init_session) \<le> 5"
    by (simp add: wf_session_def init_session_def)
  have e: "deref init_session 0 = []"
    by (simp add: deref_def init_session_def)
  have n: "deref (init_session\<lparr>frames := [[], [(TStr ''t0'', CFloat (Fin 7))]], df := 1\<rparr>) 1 \<noteq> []"
    by (simp add: deref_def)
  show ?thesis
    using add_to_history_keeps_five [of init_session 0 "''t7''" "''g''"
        "[(''a'', [(TStr ''t0'', CFloat (Fin 1))], ''t1''),
          (''b'', [(TStr ''t0'', CFloat (Fin 2))], ''t2''),
          (''c'', [(TStr ''t0'', CFloat (Fin 3))], ''t3''),
          (''x'', [], ''t3''),
          (''d'', [(TStr ''t0'', CFloat (Fin 4))], ''t4''),
          (''e'', [(TStr ''t0'', CFloat (Fin 5))], ''t5''),
          (''f'', [(TStr ''t0'', CFloat (Fin 6))], ''t6'')]"]
      add_to_history_keeps_five [of
        "init_session\<lparr>frames := [[], [(TStr ''t0'', CFloat (Fin 7))]], df := 1\<rparr>"
        1 "''t7''" "''g''" "[]"]
      wf e n
    by (simp add: init_session_def Let_def)
qed

section \<open>Stored snapshots are not altered\<close>

lemma restore_snapshot_fresh:
  assumes "wf_session s" "i < length (history s)"
  shows "df (restore_snapshot i s) = length (frames s)"
    and "frames (restore_snapshot i s) = frames s @ [deref s (snap_df (history s ! i))]"
    and "history (restore_snapshot i s) = history s"
  using assms by (simp_all add: restore_snapshot_def alloc_def)

text \<open>
  C6. Every session reached from the initial one is well formed, and in a well-formed
  session the rows of every stored snapshot are the same after any sequence of appends,
  grid commits, clears, restores and exports. Restoring a snapshot makes the table a new
  frame with the snapshot's rows, different from the frame of every stored snapshot, so
  that overwriting the restored table leaves every stored snapshot as it was.
\<close>

theorem snapshot_immutable:
  "wf_session (run P as init_session) \<and>
   (wf_session s \<longrightarrow>
      (\<forall>sn \<in> set (history s). deref (run P as s) (snap_df sn) = deref s (snap_df sn))) \<and>
   (wf_session s \<and> i < length (history s) \<longrightarrow>
      (let s' = restore_snapshot i s
       in deref s' (df s') = deref s (snap_df (history s ! i)) \<and>
          (\<forall>sn \<in> set (history s').
             snap_df sn \<noteq> df s' \<and>
             deref (s'\<lparr>frames := (frames s')[df s' := w]\<rparr>) (snap_df sn) =
               deref s (snap_df sn))))"
proof (intro conjI impI)
  show "wf_session (run P as init_session)"
    by (rule wf_run [OF wf_init])
next
  assume wf: "wf_session s"
  show "\<forall>sn \<in> set (history s). deref (run P as s) (snap_df sn) = deref s (snap_df sn)"
  proof
    fix sn assume "sn \<in> set (history s)"
    then have "snap_df sn < length (frames s)"
      using wf by (simp add: wf_session_def list_all_iff)
    then show "deref (run P as s) (snap_df sn) = deref s (snap_df sn)"
      by (rule run_deref)
  qed
next
  assume a: "wf_session s \<and> i < length (history s)"
  then have wf: "wf_session s" and i: "i < length (history s)" by simp_all
  let ?s' = "restore_snapshot i s"
  note r = restore_snapshot_fresh [OF wf i]
  have copy: "deref ?s' (df ?s') = deref s (snap_df (history s ! i))"
    by (simp add: deref_def r)
  have old: "\<forall>sn \<in> set (history ?s').
      snap_df sn \<noteq> df ?s' \<and>
      deref (?s'\<lparr>frames := (frames ?s')[df ?s' := w]\<rparr>) (snap_df sn) = deref s (snap_df sn)"
  proof
    fix sn assume "sn \<in> set (history ?s')"
    then have lt: "snap_df sn < length (frames s)"
      using wf by (simp add: r wf_session_def list_all_iff)
    then show "snap_df sn \<noteq> df ?s' \<and>
      deref (?s'\<lparr>frames := (frames ?s')[df ?s' := w]\<rparr>) (snap_df sn) = deref s (snap_df sn)"
      by (simp add: r deref_def nth_append)
  qed
  show "let s' = restore_snapshot i s
       in deref s' (df s') = deref s (snap_df (history s ! i)) \<and>
          (\<forall>sn \<in> set (history s').
             snap_df sn \<noteq> df s' \<and>
             deref (s'\<lparr>frames := (frames s')[df s' := w]\<rparr>) (snap_df sn) =
               deref s (snap_df sn))"
    using copy old by (simp only: Let_def)
qed


lemma snapshot_example_state:
  "run py_float [AddPower ''10'' ''t1'', Export ''t2'' ''power_data''] init_session =
     \<lparr>frames = [[], [(TStr ''t1'', CFloat (Fin 10))], [(TStr ''t1'', CFloat (Fin 10))],
                 [(TStr ''t1'', CFloat (Fin 10))]],
      df = 1,
      history = [\<lparr>name = ''power_data (export)'', snap_df = 3, timestamp = ''t2''\<rparr>],
      edit_mode = True, power_input = [],
      last_input_status = Some (Success, Added ''t1'' (Fin 10))\<rparr>"
  by code_simp

theorem snapshot_immutable_witness:
  "(let s = run py_float [AddPower ''10'' ''t1'', Export ''t2'' ''power_data''] init_session;
        sn = \<lparr>name = ''power_data (export)'', snap_df = 3, timestamp = ''t2''\<rparr>
    in wf_session s \<and> sn \<in> set (history s) \<and>
       deref s (snap_df sn) = [(TStr ''t1'', CFloat (Fin 10))] \<and>
       deref (run py_float
                [AddPower ''20'' ''t3'', CommitEdit [(TStr ''t9'', CStr ''abc'')], ClearData] s)
             (snap_df sn) = [(TStr ''t1'', CFloat (Fin 10))] \<and>
       deref (restore_snapshot 0 s) (df (restore_snapshot 0 s))
         = [(TStr ''t1'', CFloat (Fin 10))] \<and>
       df (restore_snapshot 0 s) \<noteq> snap_df sn \<and>
       deref (restore_snapshot 0 s
                \<lparr>frames := (frames (restore_snapshot 0 s))[df (restore_snapshot 0 s) := []]\<rparr>)
             (snap_df sn) = [(TStr ''t1'', CFloat (Fin 10))])"
proof -
  let ?s = "run py_float [AddPower ''10'' ''t1'', Export ''t2'' ''power_data''] init_session"
  let ?sn = "\<lparr>name = ''power_data (export)'', snap_df = 3, timestamp = ''t2''\<rparr>"
  have wf: "wf_session ?s"
    by (rule wf_run [OF wf_init])
  have i: "0 < length (history ?s)" and m: "?sn \<in> set (history ?s)"
    and d: "deref ?s (snap_df ?sn) = [(TStr ''t1'', CFloat (Fin 10))]"
    by (simp_all only: snapshot_example_state) (simp_all add: deref_def)
  note t = snapshot_immutable [of py_float
      "[AddPower ''20'' ''t3'', CommitEdit [(TStr ''t9'', CStr ''abc'')], ClearData]"
      ?s 0 "[]"]
  have r: "\<forall>sn \<in> set (history ?s). deref (run py_float
      [AddPower ''20'' ''t3'', CommitEdit [(TStr ''t9'', CStr ''abc'')], ClearData] ?s)
      (snap_df sn) = deref ?s (snap_df sn)"
    using t wf by blast
  have h: "history (restore_snapshot 0 ?s) = history ?s"
    by (rule restore_snapshot_fresh(3) [OF wf i])
  have c: "let s' = restore_snapshot 0 ?s
       in deref s' (df s') = deref ?s (snap_df (history ?s ! 0)) \<and>
          (\<forall>sn \<in> set (history s').
             snap_df sn \<noteq> df s' \<and>
             deref (s'\<lparr>frames := (frames s')[df s' := []]\<rparr>) (snap_df sn) =
               deref ?s (snap_df sn))"
    using t wf i by blast
  have h0: "history ?s ! 0 = ?sn" by (simp only: snapshot_example_state) simp
  show ?thesis
    using wf m d r c h h0 by (simp only: Let_def) (metis (no_types, lifting))
qed

section \<open>Properties of the grid commit and of the status label\<close>

lemma commit_edit_stored:
  assumes "edit_mode s"
  shows "deref (snd (commit_edit P edited s)) (df (snd (commit_edit P edited s))) =
           map (\<lambda>(t, c). (t, CFloat (to_numeric P c))) edited"
    and "fst (commit_edit P edited s) =
           list_ex (\<lambda>(t, c). \<not> between (to_numeric P c) POWER_MIN POWER_MAX
                               \<and> notna (to_numeric P c)) edited"
    and "history (snd (commit_edit P edited s)) = history s"
proof -
  show "deref (snd (commit_edit P edited s)) (df (snd (commit_edit P edited s))) =
           map (\<lambda>(t, c). (t, CFloat (to_numeric P c))) edited"
    using assms by (simp add: commit_edit_def alloc_def deref_def Let_def)
  show "history (snd (commit_edit P edited s)) = history s"
    using assms by (simp add: commit_edit_def alloc_def Let_def)
  have m: "map (\<lambda>(t, c). \<not> between (cell_value c) POWER_MIN POWER_MAX \<and> notna (cell_value c))
          (map (\<lambda>(t, c). (t, CFloat (to_numeric P c))) edited) =
        map (\<lambda>(t, c). \<not> between (to_numeric P c) POWER_MIN POWER_MAX \<and> notna (to_numeric P c))
          edited"
    by (simp add: split_beta cell_value_def)
  have "fst (commit_edit P edited s) =
      list_ex (\<lambda>b. b)
        (map (\<lambda>(t, c). \<not> between (cell_value c) POWER_MIN POWER_MAX \<and> notna (cell_value c))
          (map (\<lambda>(t, c). (t, CFloat (to_numeric P c))) edited))"
    using assms by (simp add: commit_edit_def alloc_def deref_def Let_def)
  also have "\<dots> = list_ex (\<lambda>b. b)
        (map (\<lambda>(t, c). \<not> between (to_numeric P c) POWER_MIN POWER_MAX \<and> notna (to_numeric P c))
          edited)"
    by (simp only: m)
  also have "\<dots> = list_ex (\<lambda>(t, c). \<not> between (to_numeric P c) POWER_MIN POWER_MAX
                               \<and> notna (to_numeric P c)) edited"
    by (auto simp: list_ex_iff)
  finally show "fst (commit_edit P edited s) =
           list_ex (\<lambda>(t, c). \<not> between (to_numeric P c) POWER_MIN POWER_MAX
                               \<and> notna (to_numeric P c)) edited" .
qed

text \<open>
  C8, as amended. A grid commit has no validation gate: every edited row is kept, in
  order and with its timestamp; the Power value is stored coerced to a float and not in
  its raw form (a float is kept as it is, a missing or unparsable value becomes NaN); a
  row outside the range only raises the warning flag and is stored unchanged.
\<close>

theorem commit_edit_coerces:
  "edit_mode s \<longrightarrow>
     (let stored = deref (snd (commit_edit P edited s)) (df (snd (commit_edit P edited s)))
      in length stored = length edited \<and>
         map fst stored = map fst edited \<and>
         map snd stored = map (\<lambda>(t, c). CFloat (to_numeric P c)) edited \<and>
         (\<forall>i < length edited. \<forall>v. snd (edited ! i) = CFloat v \<longrightarrow> snd (stored ! i) = CFloat v) \<and>
         (fst (commit_edit P edited s) \<longleftrightarrow>
            (\<exists>(t, c) \<in> set edited. \<not> between (to_numeric P c) POWER_MIN POWER_MAX
                                      \<and> notna (to_numeric P c)))) \<and>
   to_numeric P CNone = NaN \<and>
   (P u = None \<longrightarrow> to_numeric P (CStr u) = NaN)"
proof (intro conjI impI)
  assume e: "edit_mode s"
  note c = commit_edit_stored [OF e, of P edited]
  show "let stored = deref (snd (commit_edit P edited s)) (df (snd (commit_edit P edited s)))
      in length stored = length edited \<and>
         map fst stored = map fst edited \<and>
         map snd stored = map (\<lambda>(t, c). CFloat (to_numeric P c)) edited \<and>
         (\<forall>i < length edited. \<forall>v. snd (edited ! i) = CFloat v \<longrightarrow> snd (stored ! i) = CFloat v) \<and>
         (fst (commit_edit P edited s) \<longleftrightarrow>
            (\<exists>(t, c) \<in> set edited. \<not> between (to_numeric P c) POWER_MIN POWER_MAX
                                      \<and> notna (to_numeric P c)))"
    unfolding Let_def c
    by (auto simp: split_beta list_ex_iff to_numeric_def)
qed (simp_all add: to_numeric_def)

text \<open>
  C8 as stated fails: a row edited to the text \<open>abc\<close> is stored with the value NaN,
  not with its raw edited text.
\<close>

theorem commit_edit_raw_counterexample:
  "(let edited = [(TStr ''2024-01-01 00:00:00'', CStr ''abc'')];
        s' = snd (commit_edit py_float edited init_session)
    in py_float ''abc'' = None \<and>
       deref s' (df s') = [(TStr ''2024-01-01 00:00:00'', CFloat NaN)] \<and>
       deref s' (df s') \<noteq> edited)"
  by code_simp

theorem commit_edit_coerces_witness:
  "(let edited = [(TStr ''t1'', CStr ''abc''), (TNone, CFloat (Fin 200)), (TStr ''t3'', CNone)];
        r = commit_edit py_float edited init_session
    in edit_mode init_session \<and> fst r \<and> py_float ''abc'' = None \<and>
       deref (snd r) (df (snd r)) =
         [(TStr ''t1'', CFloat NaN), (TNone, CFloat (Fin 200)), (TStr ''t3'', CFloat NaN)])"
proof -
  have e: "edit_mode init_session" by (simp add: init_session_def)
  have p: "py_float ''abc'' = None" by code_simp
  have z: "\<And>xs ys :: (tcell \<times> cell) list.
     length xs = length ys \<Longrightarrow> map fst xs = map fst ys \<Longrightarrow> map snd xs = map snd ys \<Longrightarrow> xs = ys"
    by (metis zip_map_fst_snd)
  show ?thesis
    using commit_edit_coerces [of init_session py_float
        "[(TStr ''t1'', CStr ''abc''), (TNone, CFloat (Fin 200)), (TStr ''t3'', CNone)]" "''abc''"]
      e p
    apply (simp only: Let_def)
    apply (intro conjI)
       apply simp
      apply (simp add: between_def notna_def isnan_def to_numeric_def pf_of_int_def POWER_MAX_def POWER_MIN_def)
     apply simp
    apply (rule z)
      apply simp
     apply simp
    apply (simp add: to_numeric_def)
    done
qed

text \<open>
  C10. After a grid commit every entry of the stored Power column is a float (NaN
  included), never text or a missing value: the stored table is the edited table with
  the Power column coerced.
\<close>

theorem commit_edit_numeric:
  "edit_mode s \<longrightarrow>
     (let s' = snd (commit_edit P edited s)
      in list_all is_float_cell (map snd (deref s' (df s'))) \<and>
         (\<forall>t u. (t, CStr u) \<notin> set (deref s' (df s')) \<and> (t, CNone) \<notin> set (deref s' (df s'))) \<and>
         deref s' (df s') = map (\<lambda>(t, c). (t, CFloat (to_numeric P c))) edited)"
proof
  assume e: "edit_mode s"
  note c = commit_edit_stored(1) [OF e, of P edited]
  show "let s' = snd (commit_edit P edited s)
      in list_all is_float_cell (map snd (deref s' (df s'))) \<and>
         (\<forall>t u. (t, CStr u) \<notin> set (deref s' (df s')) \<and> (t, CNone) \<notin> set (deref s' (df s'))) \<and>
         deref s' (df s') = map (\<lambda>(t, c). (t, CFloat (to_numeric P c))) edited"
    unfolding Let_def c
    by (auto simp: list_all_iff is_float_cell_def)
qed

theorem commit_edit_numeric_witness:
  "(let edited = [(TStr ''t1'', CStr ''abc''), (TStr ''t2'', CStr ''12''), (TStr ''t3'', CNone)];
        s' = snd (commit_edit py_float edited init_session)
    in edit_mode init_session \<and>
       list_all is_float_cell (map snd (deref s' (df s'))) \<and>
       deref s' (df s') =
         [(TStr ''t1'', CFloat NaN), (TStr ''t2'', CFloat (Fin 12)), (TStr ''t3'', CFloat NaN)])"
proof -
  let ?edited = "[(TStr ''t1'', CStr ''abc''), (TStr ''t2'', CStr ''12''), (TStr ''t3'', CNone)]"
  let ?s' = "snd (commit_edit py_float ?edited init_session)"
  have e: "edit_mode init_session" by (simp add: init_session_def)
  have p: "py_float ''abc'' = None" "py_float ''12'' = Some (Fin 12)" by code_simp+
  have t: "list_all is_float_cell (map snd (deref ?s' (df ?s'))) \<and>
         (\<forall>t u. (t, CStr u) \<notin> set (deref ?s' (df ?s')) \<and> (t, CNone) \<notin> set (deref ?s' (df ?s'))) \<and>
         deref ?s' (df ?s') = map (\<lambda>(t, c). (t, CFloat (to_numeric py_float c))) ?edited"
    using mp [OF commit_edit_numeric [of init_session py_float ?edited] e]
    unfolding Let_def .
  have "map (\<lambda>(t, c). (t, CFloat (to_numeric py_float c))) ?edited =
      [(TStr ''t1'', CFloat NaN), (TStr ''t2'', CFloat (Fin 12)), (TStr ''t3'', CFloat NaN)]"
    by (simp add: to_numeric_def p)
  then have "deref ?s' (df ?s') =
      [(TStr ''t1'', CFloat NaN), (TStr ''t2'', CFloat (Fin 12)), (TStr ''t3'', CFloat NaN)]"
    using t by simp
  then show ?thesis using t e unfolding Let_def by blast
qed

text \<open>
  C7. No value gives \<open>No data\<close>. Otherwise the label depends on the magnitude only:
  high above 120, medium above 60 and up to 120, normal otherwise. The range gate plays no
  part: 130 is inside the range and high, 200 is outside the range and high as well.
\<close>

theorem power_status_label_cases:
  "power_status_label None = (WhiteCircle, ''No data'') \<and>
   power_status_label (Some (Fin r)) =
     (if 120 < \<bar>r\<bar> then (WarningSign, ''High power alert'')
      else if 60 < \<bar>r\<bar> \<and> \<bar>r\<bar> \<le> 120 then (YellowCircle, ''Medium usage'')
      else (GreenCircle, ''Normal'')) \<and>
   power_status_label (Some PInf) = (WarningSign, ''High power alert'') \<and>
   power_status_label (Some NInf) = (WarningSign, ''High power alert'') \<and>
   power_status_label (Some NaN) = (GreenCircle, ''Normal'') \<and>
   power_status_label (Some (Fin 130)) = (WarningSign, ''High power alert'') \<and>
   power_status_label (Some (Fin 80)) = (YellowCircle, ''Medium usage'') \<and>
   power_status_label (Some (Fin 30)) = (GreenCircle, ''Normal'') \<and>
   between (Fin 130) POWER_MIN POWER_MAX \<and>
   \<not> between (Fin 200) POWER_MIN POWER_MAX \<and>
   power_status_label (Some (Fin 200)) = (WarningSign, ''High power alert'')"
  by (simp add: power_status_label_def pf_of_int_def between_def POWER_MIN_def POWER_MAX_def)

section \<open>Properties of the chart data\<close>

lemma zip_columns:
  "zip (map f (map fst xs)) (map (\<lambda>(t, c). g c) xs) = map (\<lambda>(t, c). (f t, g c)) xs"
  by (induction xs) auto

lemma prepare_plot_df_map:
  "prepare_plot_df D P fr =
     filter (\<lambda>(t, v). notna v)
       (map (\<lambda>(t, c). (conv_time D (map fst fr) t, to_numeric P c)) fr)"
proof -
  have times: "(case to_datetime D (map fst fr) of Some ts \<Rightarrow> ts
                | None \<Rightarrow> map raw_time (map fst fr)) =
               map (conv_time D (map fst fr)) (map fst fr)"
    by (auto simp: conv_time_def to_datetime_def split: option.splits)
  show ?thesis
    unfolding prepare_plot_df_def Let_def times zip_columns by (rule refl)
qed

lemma conv_time_isna:
  assumes "t \<in> set col"
  shows "time_isna (conv_time D col t) \<longleftrightarrow> time_dropped D col t"
proof (cases "to_datetime D col")
  case None
  then show ?thesis
    by (cases t) (simp_all add: conv_time_def time_dropped_def raw_time_def time_isna_def)
next
  case (Some ts)
  show ?thesis
  proof (cases t)
    case TNone
    then show ?thesis using Some by (simp add: conv_time_def time_dropped_def time_isna_def)
  next
    case (TStr u)
    have "D col u \<noteq> DtFail"
      using Some assms TStr
      by (auto simp: to_datetime_def list_ex_iff split: if_splits)
    then show ?thesis using Some TStr
      by (cases "D col u") (simp_all add: conv_time_def time_dropped_def time_isna_def)
  qed
qed

lemma plot_rows_gen:
  assumes "set (map fst fr) \<subseteq> set col"
  shows "filter (\<lambda>(t, v). \<not> time_isna t \<and> notna v)
           (filter (\<lambda>(t, v). notna v)
              (map (\<lambda>(t, c). (conv_time D col t, to_numeric P c)) fr)) =
         map (\<lambda>(t, c). (conv_time D col t, to_numeric P c))
           (filter (\<lambda>(t, c). \<not> (isnan (to_numeric P c) \<or> time_dropped D col t)) fr)"
  using assms by (induction fr) (auto simp: conv_time_isna notna_def)

lemma plot_frame_alt:
  "plot_frame D P fr =
     map (\<lambda>(t, c). (conv_time D (map fst fr) t, to_numeric P c))
       (filter (\<lambda>(t, c). \<not> (isnan (to_numeric P c) \<or> time_dropped D (map fst fr) t)) fr)"
  unfolding plot_frame_def prepare_plot_df_map
  by (rule plot_rows_gen) simp

lemma sorted_stamp_keys:
  "sorted (map (\<lambda>n. (0::nat, n::int, []::string)) ns) \<Longrightarrow> sorted ns"
  by (induction ns) auto

lemma plot_frame_stamps:
  assumes "to_datetime D (map fst fr) \<noteq> None" "(t, v) \<in> set (plot_frame D P fr)"
  shows "\<exists>n. t = DStamp n"
proof -
  obtain t0 c where "(t0, c) \<in> set fr" and t: "t = conv_time D (map fst fr) t0"
    and keep: "\<not> time_dropped D (map fst fr) t0"
    using assms(2) unfolding plot_frame_alt by auto
  then have "t0 \<in> set (map fst fr)" by force
  then have "\<not> time_isna t" using keep t by (simp add: conv_time_isna)
  then show ?thesis using assms(1) t
    by (auto simp: conv_time_def time_isna_def split: option.splits tcell.splits dtparse.splits)
qed

section \<open>Properties of the smoothing\<close>

lemma pf_sum_Fin_aux: "foldl pf_add (Fin a) (map Fin rs) = Fin (a + sum_list rs)"
  by (induction rs arbitrary: a) (simp_all add: add.assoc)

lemma pf_sum_Fin: "pf_sum (map Fin rs) = Fin (sum_list rs)"
  by (simp add: pf_sum_def pf_sum_Fin_aux)

lemma rolling_window_map: "rolling_window w i (map f xs) = map f (rolling_window w i xs)"
  by (simp add: rolling_window_def Let_def take_map drop_map)

lemma filter_notna_Fin: "filter notna (map Fin rs) = map Fin rs"
  by (induction rs) (simp_all add: notna_def isnan_def)

lemma rolling_window_odd:
  assumes "i < length xs"
  shows "rolling_window (2 * h + 1) i xs = take (min (length xs) (i + h + 1) - (i - h)) (drop (i - h) xs)"
  by (simp add: rolling_window_def Let_def)

lemma sum_list_slice:
  assumes "s + k \<le> length xs"
  shows "sum_list (take k (drop s xs)) = (\<Sum>j = s..<s + k. (xs ! j :: real))"
proof -
  have "sum_list (take k (drop s xs)) = (\<Sum>j = 0..<k. take k (drop s xs) ! j)"
    using assms by (simp add: sum_list_sum_nth)
  also have "\<dots> = (\<Sum>j = 0..<k. xs ! (s + j))"
    using assms by (intro sum.cong) simp_all
  also have "\<dots> = (\<Sum>j = s..<s + k. xs ! j)"
    using sum.shift_bounds_nat_ivl [of "\<lambda>j. xs ! j" 0 s k] by (simp add: add.commute)
  finally show ?thesis .
qed

lemma centered_window_set:
  fixes i n h :: nat
  assumes "i < n"
  shows "{j. j < n \<and> i \<le> j + h \<and> j \<le> i + h} = {i - h..<min n (i + h + 1)}"
proof (rule set_eqI)
  fix j
  have "i - h \<le> j \<longleftrightarrow> i \<le> j + h" by arith
  moreover have "j < min n (i + h + 1) \<longleftrightarrow> j < n \<and> j \<le> i + h" by arith
  ultimately show "j \<in> {j. j < n \<and> i \<le> j + h \<and> j \<le> i + h} \<longleftrightarrow>
      j \<in> {i - h..<min n (i + h + 1)}"
    by (simp only: mem_Collect_eq atLeastLessThan_iff) blast
qed

lemma rolling_mean_nth:
  assumes "i < length rs"
  shows "rolling_mean (2 * h + 1) (map Fin rs) ! i =
         Fin ((\<Sum>j | j < length rs \<and> i \<le> j + h \<and> j \<le> i + h. rs ! j) /
              real (card {j. j < length rs \<and> i \<le> j + h \<and> j \<le> i + h}))"
proof -
  let ?s = "i - h" and ?e = "min (length rs) (i + h + 1)"
  define win where "win = take (?e - ?s) (drop ?s rs)"
  have se: "?s < ?e" "?s + (?e - ?s) = ?e" "?e \<le> length rs"
    using assms by auto
  have len: "length win = ?e - ?s" using se by (simp add: win_def)
  then have pos: "0 < length win" using se(1) by simp
  have obs: "filter notna (rolling_window (2 * h + 1) i (map Fin rs)) = map Fin win"
    by (simp only: rolling_window_map rolling_window_odd [OF assms] filter_notna_Fin win_def)
  have sum: "sum_list win = (\<Sum>j = ?s..<?e. rs ! j)"
    unfolding win_def using sum_list_slice [of ?s "?e - ?s" rs] se by simp
  have set: "{?s..<?e} = {j. j < length rs \<and> i \<le> j + h \<and> j \<le> i + h}"
    using centered_window_set [OF assms, of h] by simp
  have card: "length win = card {j. j < length rs \<and> i \<le> j + h \<and> j \<le> i + h}"
    unfolding set [symmetric] len by simp
  have "rolling_mean (2 * h + 1) (map Fin rs) ! i =
      (let obs = filter notna (rolling_window (2 * h + 1) i (map Fin rs))
       in if length obs < 1 then NaN else pf_div_nat (pf_sum obs) (length obs))"
    using assms by (simp add: rolling_mean_def)
  also have "\<dots> = Fin (sum_list win / real (length win))"
    unfolding obs Let_def using pos by (simp add: pf_sum_Fin)
  finally show ?thesis
    unfolding sum set card .
qed

lemma length_rolling_mean: "length (rolling_mean w xs) = length xs"
  by (simp add: rolling_mean_def)

lemma between_finite: "between v lo hi \<Longrightarrow> \<exists>r. v = Fin r"
  by (cases v) (simp_all add: between_def pf_of_int_def)

lemma map_Fin_exists:
  "(\<And>v. v \<in> set vs \<Longrightarrow> \<exists>r. v = Fin r) \<Longrightarrow> \<exists>rs. vs = map Fin rs"
proof (induction vs)
  case Nil
  show ?case by simp
next
  case (Cons v vs)
  obtain r where "v = Fin r" using Cons.prems by auto
  moreover obtain rs where "vs = map Fin rs" using Cons by auto
  ultimately have "v # vs = map Fin (r # rs)" by simp
  then show ?case by (rule exI)
qed

lemma tab_visual_plot:
  assumes "tab_visual D P ctl fr = Plot rows"
  shows "\<exists>rs. map (fst \<circ> snd) rows = map Fin rs"
    and "map (snd \<circ> snd) rows =
           (if smoothing_enabled ctl
            then rolling_mean (smoothing_window ctl) (map (fst \<circ> snd) rows)
            else map (fst \<circ> snd) rows)"
proof -
  define df3 where "df3 = filter (\<lambda>(t, v). between v (fst (power_range ctl)) (snd (power_range ctl)))
      (if sort_time ctl then sort_values (plot_frame D P fr) else plot_frame D P fr)"
  define pp where "pp = (if smoothing_enabled ctl
      then rolling_mean (smoothing_window ctl) (map snd df3) else map snd df3)"
  have rows: "rows = zip (map fst df3) (zip (map snd df3) pp)"
    using assms by (simp add: tab_visual_def Let_def df3_def pp_def split: if_splits)
  have lp: "length pp = length df3"
    by (simp add: pp_def length_rolling_mean)
  have power: "map (fst \<circ> snd) rows = map snd df3"
    unfolding rows using lp by (simp flip: map_map)
  have plot: "map (snd \<circ> snd) rows = pp"
    unfolding rows using lp by (simp flip: map_map)
  have "\<And>v. v \<in> set (map snd df3) \<Longrightarrow> \<exists>r. v = Fin r"
    by (auto simp: df3_def dest: between_finite)
  then show "\<exists>rs. map (fst \<circ> snd) rows = map Fin rs"
    unfolding power by (rule map_Fin_exists)
  show "map (snd \<circ> snd) rows =
           (if smoothing_enabled ctl
            then rolling_mean (smoothing_window ctl) (map (fst \<circ> snd) rows)
            else map (fst \<circ> snd) rows)"
    unfolding power plot by (simp add: pp_def)
qed

lemma rolling_mean_example:
  "rolling_mean 3 (map Fin [1, 2, 3, 4, 5]) = map Fin [3 / 2, 2, 3, 4, 9 / 2]"
  by code_simp

text \<open>
  C5. The smoothed series has the length of the series. For a window of odd size
  \<open>2 * h + 1\<close> (3, 5 and 7 are \<open>h\<close> = 1, 2, 3) its value at position \<open>i\<close> is the average of
  the values at the positions of the series within distance \<open>h\<close> of \<open>i\<close>, however many
  there are. Window 3 over 1, 2, 3, 4, 5 gives 1.5, 2, 3, 4, 4.5. In a chart the values
  plotted are finite; \<open>Power_plot\<close> is the smoothed \<open>Power\<close> column when smoothing is
  enabled, and the \<open>Power\<close> column itself otherwise.
\<close>

theorem smoothing_centered_mean:
  "length (rolling_mean w xs) = length xs \<and>
   (i < length rs \<longrightarrow>
      rolling_mean (2 * h + 1) (map Fin rs) ! i =
        Fin ((\<Sum>j | j < length rs \<and> i \<le> j + h \<and> j \<le> i + h. rs ! j) /
             real (card {j. j < length rs \<and> i \<le> j + h \<and> j \<le> i + h}))) \<and>
   rolling_mean 3 (map Fin [1, 2, 3, 4, 5]) = map Fin [3 / 2, 2, 3, 4, 9 / 2] \<and>
   (tab_visual D P ctl fr = Plot rows \<longrightarrow>
      (\<exists>rs. map (fst \<circ> snd) rows = map Fin rs) \<and>
      map (snd \<circ> snd) rows =
        (if smoothing_enabled ctl
         then rolling_mean (smoothing_window ctl) (map (fst \<circ> snd) rows)
         else map (fst \<circ> snd) rows))"
  using length_rolling_mean rolling_mean_nth rolling_mean_example tab_visual_plot
  by (intro conjI impI) blast+

theorem smoothing_centered_mean_witness:
  "(let D = (\<lambda>col u. if u = ''2024-01-01 00:00:01'' then DtOk 1
                      else if u = ''2024-01-01 00:00:02'' then DtOk 2
                      else if u = ''2024-01-01 00:00:03'' then DtOk 3 else DtFail);
        ctl = \<lparr>sort_time = True, power_range = (- 150, 150),
               smoothing_enabled = True, smoothing_window = 3\<rparr>;
        fr = [(TStr ''2024-01-01 00:00:03'', CFloat (Fin 3)),
              (TStr ''2024-01-01 00:00:01'', CFloat (Fin 1)),
              (TStr ''2024-01-01 00:00:02'', CFloat (Fin 2))];
        rows = [(DStamp 1, Fin 1, Fin (3 / 2)), (DStamp 2, Fin 2, Fin 2),
                (DStamp 3, Fin 3, Fin (5 / 2))]
    in (0::nat) < length [1, 2, 3, 4, 5 :: real] \<and>
       rolling_mean 3 (map Fin [1, 2, 3, 4, 5]) ! 0 = Fin (3 / 2) \<and>
       tab_visual D py_float ctl fr = Plot rows \<and>
       map (snd \<circ> snd) rows = rolling_mean 3 (map (fst \<circ> snd) rows))"
proof -
  let ?D = "\<lambda>(col :: tcell list) u. if u = ''2024-01-01 00:00:01'' then DtOk 1
                      else if u = ''2024-01-01 00:00:02'' then DtOk 2
                      else if u = ''2024-01-01 00:00:03'' then DtOk 3 else DtFail"
  let ?ctl = "\<lparr>sort_time = True, power_range = (- 150, 150),
               smoothing_enabled = True, smoothing_window = 3\<rparr>"
  let ?fr = "[(TStr ''2024-01-01 00:00:03'', CFloat (Fin 3)),
              (TStr ''2024-01-01 00:00:01'', CFloat (Fin 1)),
              (TStr ''2024-01-01 00:00:02'', CFloat (Fin 2))]"
  let ?rows = "[(DStamp 1, Fin 1, Fin (3 / 2)), (DStamp 2, Fin 2, Fin 2),
                (DStamp 3, Fin 3, Fin (5 / 2))]"
  note t = smoothing_centered_mean [of 3 "[]" 0 "[1, 2, 3, 4, 5]" 1 ?D py_float ?ctl ?fr ?rows]
  have i: "(0::nat) < length [1, 2, 3, 4, 5 :: real]" by simp
  have w: "{j. j < length [1, 2, 3, 4, 5 :: real] \<and> 0 \<le> j + 1 \<and> j \<le> 0 + 1} = {0..<2}"
    by auto
  have n: "rolling_mean 3 (map Fin [1, 2, 3, 4, 5]) ! 0 = Fin (3 / 2)"
    using t i unfolding w by (simp add: eval_nat_numeral)
  have v: "tab_visual ?D py_float ?ctl ?fr = Plot ?rows"
    by code_simp
  have s: "map (snd \<circ> snd) ?rows = rolling_mean 3 (map (fst \<circ> snd) ?rows)"
    using t v by simp
  show ?thesis unfolding Let_def using i n v s by blast
qed

section \<open>Properties of the rows of the chart\<close>

lemma tab_visual_rows:
  assumes "tab_visual D P ctl fr = Plot rows"
  shows "map (\<lambda>(t, v, pv). (t, v)) rows =
           filter (\<lambda>(t, v). between v (fst (power_range ctl)) (snd (power_range ctl)))
             (if sort_time ctl then sort_values (plot_frame D P fr) else plot_frame D P fr)"
proof -
  define df3 where "df3 = filter (\<lambda>(t, v). between v (fst (power_range ctl)) (snd (power_range ctl)))
      (if sort_time ctl then sort_values (plot_frame D P fr) else plot_frame D P fr)"
  define pp where "pp = (if smoothing_enabled ctl
      then rolling_mean (smoothing_window ctl) (map snd df3) else map snd df3)"
  have rows: "rows = zip (map fst df3) (zip (map snd df3) pp)"
    using assms by (simp add: tab_visual_def Let_def df3_def pp_def split: if_splits)
  have lp: "length pp = length df3"
    by (simp add: pp_def length_rolling_mean)
  have "map (\<lambda>(t, v, pv). (t, v)) (zip (map fst xs) (zip (map snd xs) ys)) = xs"
    if "length ys = length xs" for xs :: "(dtcell \<times> pyfloat) list" and ys :: "pyfloat list"
    using that by (induction xs ys rule: list_induct2') auto
  then show ?thesis
    unfolding rows df3_def [symmetric] using lp by blast
qed

lemma sorted_key_filter:
  "sorted (map f xs) \<Longrightarrow> sorted (map f (filter p xs))"
  by (induction xs) auto

text \<open>
  C4, as amended. The value of every row is coerced and the timestamp column is parsed
  as a whole. The prepared rows are the rows of the table, in order, without exactly
  those whose value is NaN after coercion or whose timestamp is missing: no timestamp at
  all, or, when the whole column parses, a text read as NaT (\<open>time_dropped\<close>). When some
  text fails to parse the column is kept as raw text, and a row with such a text and a
  numeric value stays in the chart data. The rows that the visualization tab plots are
  the prepared rows inside the slider's range: with \<open>sort_time\<close> set they are in ascending
  order of the timestamp column (by instant when the column parsed, by text otherwise),
  and without it they are in the order of the table.
\<close>

theorem plot_frame_rows:
  "plot_frame D P fr =
     map (\<lambda>(t, c). (conv_time D (map fst fr) t, to_numeric P c))
       (filter (\<lambda>(t, c). \<not> (isnan (to_numeric P c) \<or> time_dropped D (map fst fr) t)) fr) \<and>
   length (plot_frame D P fr) =
     length fr - length (filter (\<lambda>(t, c). isnan (to_numeric P c) \<or>
                                          time_dropped D (map fst fr) t) fr) \<and>
   (to_datetime D (map fst fr) = None \<longrightarrow>
      (\<forall>u c. (TStr u, c) \<in> set fr \<and> notna (to_numeric P c) \<longrightarrow>
             (DRaw u, to_numeric P c) \<in> set (plot_frame D P fr))) \<and>
   (tab_visual D P ctl fr = Plot rows \<longrightarrow>
      mset (map (\<lambda>(t, v, pv). (t, v)) rows) =
        mset (filter (\<lambda>(t, v). between v (fst (power_range ctl)) (snd (power_range ctl)))
                (plot_frame D P fr)) \<and>
      (sort_time ctl \<longrightarrow>
         sorted (map (\<lambda>(t, v, pv). dt_key t) rows) \<and>
         (to_datetime D (map fst fr) \<noteq> None \<longrightarrow>
            (\<exists>stamps. map fst rows = map DStamp stamps \<and> sorted stamps))) \<and>
      (\<not> sort_time ctl \<longrightarrow>
         map (\<lambda>(t, v, pv). (t, v)) rows =
           filter (\<lambda>(t, v). between v (fst (power_range ctl)) (snd (power_range ctl)))
             (plot_frame D P fr)))"
proof (intro conjI impI allI)
  show "plot_frame D P fr =
     map (\<lambda>(t, c). (conv_time D (map fst fr) t, to_numeric P c))
       (filter (\<lambda>(t, c). \<not> (isnan (to_numeric P c) \<or> time_dropped D (map fst fr) t)) fr)"
    by (rule plot_frame_alt)
next
  let ?drop = "\<lambda>(t, c). isnan (to_numeric P c) \<or> time_dropped D (map fst fr) t"
  have "length (filter ?drop fr) + length (filter (\<lambda>x. \<not> ?drop x) fr) = length fr"
    by (rule sum_length_filter_compl)
  moreover have "length (plot_frame D P fr) = length (filter (\<lambda>x. \<not> ?drop x) fr)"
    unfolding plot_frame_alt by (simp add: case_prod_unfold)
  ultimately show "length (plot_frame D P fr) = length fr - length (filter ?drop fr)"
    by simp
next
  fix u c
  assume n: "to_datetime D (map fst fr) = None"
    and m: "(TStr u, c) \<in> set fr \<and> notna (to_numeric P c)"
  then have "(TStr u, c) \<in> set (filter (\<lambda>(t, c). \<not> (isnan (to_numeric P c) \<or>
      time_dropped D (map fst fr) t)) fr)"
    by (simp add: time_dropped_def notna_def)
  then have "(\<lambda>(t, c). (conv_time D (map fst fr) t, to_numeric P c)) (TStr u, c)
      \<in> set (plot_frame D P fr)"
    unfolding plot_frame_alt set_map by (rule imageI)
  then show "(DRaw u, to_numeric P c) \<in> set (plot_frame D P fr)"
    using n by (simp add: conv_time_def raw_time_def)
next
  assume tv: "tab_visual D P ctl fr = Plot rows"
  note r = tab_visual_rows [OF tv]
  show "mset (map (\<lambda>(t, v, pv). (t, v)) rows) =
        mset (filter (\<lambda>(t, v). between v (fst (power_range ctl)) (snd (power_range ctl)))
                (plot_frame D P fr))"
    unfolding r by (simp add: sort_values_def)
  show "map (\<lambda>(t, v, pv). (t, v)) rows =
           filter (\<lambda>(t, v). between v (fst (power_range ctl)) (snd (power_range ctl)))
             (plot_frame D P fr)" if "\<not> sort_time ctl"
    unfolding r using that by simp
  have keys: "map (\<lambda>(t, v, pv). dt_key t) rows =
      map (\<lambda>(t, v). dt_key t) (map (\<lambda>(t, v, pv). (t, v)) rows)"
    by (simp add: case_prod_unfold)
  show sorted_rows: "sorted (map (\<lambda>(t, v, pv). dt_key t) rows)" if st: "sort_time ctl"
    unfolding keys r using st
    by (simp add: sort_values_def sorted_key_filter)
  show "\<exists>stamps. map fst rows = map DStamp stamps \<and> sorted stamps"
    if st: "sort_time ctl" and p: "to_datetime D (map fst fr) \<noteq> None"
  proof -
    let ?stamps = "map (\<lambda>(t, v, pv). (case t of DStamp n \<Rightarrow> n | _ \<Rightarrow> 0)) rows"
    have mem: "\<exists>n. t = DStamp n" if "(t, v, pv) \<in> set rows" for t v pv
    proof -
      from that have "(t, v) \<in> set (map (\<lambda>(t, v, pv). (t, v)) rows)" by force
      then have "(t, v) \<in> set (plot_frame D P fr)"
        unfolding r by (auto simp: sort_values_def split: if_splits)
      then show ?thesis by (rule plot_frame_stamps [OF p])
    qed
    have pt: "fst x = DStamp (case x of (t, v, pv) \<Rightarrow> (case t of DStamp n \<Rightarrow> n | _ \<Rightarrow> 0)) \<and>
        (case x of (t, v, pv) \<Rightarrow> dt_key t) =
          (0, (case x of (t, v, pv) \<Rightarrow> (case t of DStamp n \<Rightarrow> n | _ \<Rightarrow> 0)), [])"
      if "x \<in> set rows" for x
    proof -
      obtain t v pv where x: "x = (t, v, pv)" by (cases x)
      have "(t, v, pv) \<in> set rows" using that x by simp
      then obtain n where "t = DStamp n" using mem by blast
      then show ?thesis using x by (simp add: dt_key_def)
    qed
    have fst_eq: "map fst rows = map DStamp ?stamps"
      unfolding map_map o_def map_eq_conv using pt by blast
    have km: "map (\<lambda>(t, v, pv). dt_key t) rows = map (\<lambda>n. (0, n, [])) ?stamps"
      unfolding map_map o_def map_eq_conv using pt by blast
    have "sorted (map (\<lambda>n. (0::nat, n, []::string)) ?stamps)"
      using sorted_rows [OF st] unfolding km .
    then have "sorted ?stamps"
      by (rule sorted_stamp_keys)
    then show ?thesis using fst_eq by blast
  qed
qed

text \<open>
  C4 as stated fails: a table of one row with the unparsable timestamp \<open>abc\<close> and the
  value 1 keeps its row, where the claim gives 1 - 1 = 0 rows.
\<close>

theorem plot_frame_unparsable_counterexample:
  "(let D = (\<lambda>col u. if u = ''2024-01-01 00:00:00'' then DtOk 0 else DtFail);
        fr = [(TStr ''abc'', CFloat (Fin 1))]
    in D (map fst fr) ''abc'' = DtFail \<and>
       plot_frame D py_float fr = [(DRaw ''abc'', Fin 1)] \<and>
       length (plot_frame D py_float fr) \<noteq> length fr - 1)"
  by (simp add: plot_frame_def prepare_plot_df_def to_datetime_def raw_time_def
      to_numeric_def notna_def isnan_def time_isna_def)

theorem plot_frame_rows_witness:
  "(let D = (\<lambda>col u. if u = ''2024-01-01 00:00:00'' then DtOk 0
                      else if u = ''2024-01-01 00:00:01'' then DtOk 1
                      else if u = ''2024-01-01 00:00:02'' then DtOk 2
                      else if u = [] then DtNaT else DtFail);
        sorting = \<lparr>sort_time = True, power_range = (- 150, 150),
                   smoothing_enabled = False, smoothing_window = 5\<rparr>;
        keeping = \<lparr>sort_time = False, power_range = (- 150, 150),
                   smoothing_enabled = False, smoothing_window = 5\<rparr>;
        fr = [(TStr ''2024-01-01 00:00:02'', CFloat (Fin 5)),
              (TNone, CFloat (Fin 1)),
              (TStr ''2024-01-01 00:00:01'', CFloat NaN),
              (TStr ''2024-01-01 00:00:00'', CFloat (Fin 7))];
        fr2 = [(TStr ''next week'', CFloat (Fin 3)), (TNone, CFloat (Fin 4)),
               (TStr ''monday'', CFloat (Fin 2))]
    in to_datetime D (map fst fr) \<noteq> None \<and>
       length (plot_frame D py_float fr) = 2 \<and>
       sort_time sorting \<and>
       tab_visual D py_float sorting fr = Plot [(DStamp 0, Fin 7, Fin 7), (DStamp 2, Fin 5, Fin 5)] \<and>
       sorted (map (\<lambda>(t, v, pv). dt_key t) [(DStamp 0, Fin 7, Fin 7), (DStamp 2, Fin 5, Fin (5::real))]) \<and>
       \<not> sort_time keeping \<and>
       tab_visual D py_float keeping fr = Plot [(DStamp 2, Fin 5, Fin 5), (DStamp 0, Fin 7, Fin 7)] \<and>
       filter (\<lambda>(t, v). between v (fst (power_range keeping)) (snd (power_range keeping)))
         (plot_frame D py_float fr) = [(DStamp 2, Fin 5), (DStamp 0, Fin 7)] \<and>
       to_datetime D (map fst fr2) = None \<and>
       (TStr ''next week'', CFloat (Fin 3)) \<in> set fr2 \<and>
       notna (to_numeric py_float (CFloat (Fin 3))) \<and>
       (DRaw ''next week'', Fin 3) \<in> set (plot_frame D py_float fr2) \<and>
       length (plot_frame D py_float fr2) = 2 \<and>
       tab_visual D py_float sorting fr2 =
         Plot [(DRaw ''monday'', Fin 2, Fin 2), (DRaw ''next week'', Fin 3, Fin 3)])"
proof -
  let ?D = "\<lambda>(col :: tcell list) u. if u = ''2024-01-01 00:00:00'' then DtOk 0
                      else if u = ''2024-01-01 00:00:01'' then DtOk 1
                      else if u = ''2024-01-01 00:00:02'' then DtOk 2
                      else if u = [] then DtNaT else DtFail"
  let ?sorting = "\<lparr>sort_time = True, power_range = (- 150, 150),
                   smoothing_enabled = False, smoothing_window = 5\<rparr>"
  let ?keeping = "\<lparr>sort_time = False, power_range = (- 150, 150),
                   smoothing_enabled = False, smoothing_window = 5\<rparr>"
  let ?fr = "[(TStr ''2024-01-01 00:00:02'', CFloat (Fin 5)),
              (TNone, CFloat (Fin 1)),
              (TStr ''2024-01-01 00:00:01'', CFloat NaN),
              (TStr ''2024-01-01 00:00:00'', CFloat (Fin 7))]"
  let ?fr2 = "[(TStr ''next week'', CFloat (Fin 3)), (TNone, CFloat (Fin 4)),
               (TStr ''monday'', CFloat (Fin 2))]"
  let ?rs = "[(DStamp 0, Fin 7, Fin 7), (DStamp 2, Fin 5, Fin 5)]"
  let ?rk = "[(DStamp 2, Fin 5, Fin 5), (DStamp 0, Fin 7, Fin 7)]"
  have p: "to_datetime ?D (map fst ?fr) \<noteq> None"
    by (simp add: to_datetime_def)
  have n: "to_datetime ?D (map fst ?fr2) = None"
    by (simp add: to_datetime_def)
  have m: "(TStr ''next week'', CFloat (Fin 3)) \<in> set ?fr2 \<and>
      notna (to_numeric py_float (CFloat (Fin 3)))"
    by (simp add: to_numeric_def notna_def isnan_def)
  have st: "sort_time ?sorting" "\<not> sort_time ?keeping" by simp_all
  have vs: "tab_visual ?D py_float ?sorting ?fr = Plot ?rs"
    by code_simp
  have vk: "tab_visual ?D py_float ?keeping ?fr = Plot ?rk"
    by code_simp
  have v2: "tab_visual ?D py_float ?sorting ?fr2 =
      Plot [(DRaw ''monday'', Fin 2, Fin 2), (DRaw ''next week'', Fin 3, Fin 3)]"
    by code_simp
  note t1 = plot_frame_rows [of ?D py_float ?fr ?sorting ?rs]
  note t2 = plot_frame_rows [of ?D py_float ?fr2 ?sorting ?rs]
  note t3 = plot_frame_rows [of ?D py_float ?fr ?keeping ?rk]
  note len1 = t1 [THEN conjunct2, THEN conjunct1]
  note len2 = t2 [THEN conjunct2, THEN conjunct1]
  note raw2 = t2 [THEN conjunct2, THEN conjunct2, THEN conjunct1]
  have l1: "length (plot_frame ?D py_float ?fr) = 2"
    unfolding len1 using p by (simp add: time_dropped_def to_numeric_def isnan_def)
  have l2: "length (plot_frame ?D py_float ?fr2) = 2"
    unfolding len2 using n by (simp add: time_dropped_def to_numeric_def isnan_def)
  have k: "(DRaw ''next week'', to_numeric py_float (CFloat (Fin 3)))
      \<in> set (plot_frame ?D py_float ?fr2)"
    using raw2 n m by blast
  have so: "sorted (map (\<lambda>(t, v, pv). dt_key t) ?rs)"
    using t1 vs st(1) by blast
  have ke: "map (\<lambda>(t, v, pv). (t, v)) ?rk =
      filter (\<lambda>(t, v). between v (fst (power_range ?keeping)) (snd (power_range ?keeping)))
        (plot_frame ?D py_float ?fr)"
    using t3 vk st(2) by blast
  have ke': "filter (\<lambda>(t, v). between v (fst (power_range ?keeping)) (snd (power_range ?keeping)))
        (plot_frame ?D py_float ?fr) = [(DStamp 2, Fin 5), (DStamp 0, Fin 7)]"
    unfolding ke [symmetric] by simp
  show ?thesis
    unfolding Let_def using p n m st vs vk v2 l1 l2 k so ke' by (simp add: to_numeric_def)
qed

section \<open>Properties of the statistics\<close>







































end
